theory Spec2Isabelle
  imports Complex_Main "HOL-Library.Multiset"
begin

section \<open>Errors\<close>

text \<open>
  Every exception the two classes can raise is a value. The repository raises
  \<open>ValueError\<close> with four different messages; the message and the numbers formatted
  into it are kept as the payload. The remaining constructors are the exceptions of the
  Python run time and of numpy that the methods can run into.
\<close>

datatype message =
    Dimensional_error nat nat
  | Invalid_method_argument string
  | Dimension_Error_feature nat nat
  | Dimension_Error nat nat
  | Cannot_reshape nat nat
  | Max_empty_sequence

datatype error =
    ValueError message
  | IndexError
  | TypeError
  | AttributeError
  | ZeroDivisionError
  | LinAlgError

section \<open>The numpy operations used by the notebook\<close>

text \<open>
  A two-dimensional array is the list of its rows, a one-dimensional array a list.
  numpy arrays are rectangular; the operations below are the numpy ones on rectangular
  arrays of matching shapes. A float is taken as the real number it stands for, and
  the arithmetic is exact: rounding, overflow and \<open>nan\<close> are not part of the model.
\<close>

type_synonym vec = "real list"
type_synonym mat = "real list list"

definition rectangular :: "nat \<Rightarrow> mat \<Rightarrow> bool" where
  "rectangular c A = list_all (\<lambda>r. length r = c) A"

definition ncols :: "mat \<Rightarrow> nat" where
  "ncols A = (case A of [] \<Rightarrow> 0 | r # _ \<Rightarrow> length r)"

definition column :: "mat \<Rightarrow> nat \<Rightarrow> vec" where
  "column A j = map (\<lambda>r. r ! j) A"

definition np_transpose :: "mat \<Rightarrow> mat" where
  "np_transpose A = map (column A) [0..<ncols A]"

definition dot_vv :: "vec \<Rightarrow> vec \<Rightarrow> real" where
  "dot_vv u v = sum_list (map2 (*) u v)"

definition np_dot_mv :: "mat \<Rightarrow> vec \<Rightarrow> vec" where
  "np_dot_mv A v = map (\<lambda>r. dot_vv r v) A"

definition np_dot_mm :: "mat \<Rightarrow> mat \<Rightarrow> mat" where
  "np_dot_mm A B = map (\<lambda>r. map (\<lambda>j. dot_vv r (column B j)) [0..<ncols B]) A"

definition np_identity :: "nat \<Rightarrow> mat" where
  "np_identity k = map (\<lambda>i. map (\<lambda>j. if i = j then 1 else 0) [0..<k]) [0..<k]"

definition scalar_times :: "real \<Rightarrow> mat \<Rightarrow> mat" where
  "scalar_times h A = map (map ((*) h)) A"

definition mat_add :: "mat \<Rightarrow> mat \<Rightarrow> mat" where
  "mat_add A B = map2 (map2 (+)) A B"

subsection \<open>The matrix inverse\<close>

text \<open>
  \<open>np.linalg.inv\<close> returns the inverse of a square matrix and raises \<open>LinAlgError\<close>
  when the matrix is not square or is singular. It is given here by the determinant
  (expanded along the first row) and the matrix of cofactors.
\<close>

definition del :: "nat \<Rightarrow> 'a list \<Rightarrow> 'a list" where
  "del j xs = take j xs @ drop (Suc j) xs"

fun det :: "mat \<Rightarrow> real" where
  "det [] = 1"
| "det (r # rs) =
     sum_list (map (\<lambda>j. (- 1) ^ j * (r ! j) * det (map (del j) rs)) [0..<length r])"

definition minor :: "mat \<Rightarrow> nat \<Rightarrow> nat \<Rightarrow> mat" where
  "minor A i j = map (del j) (del i A)"

definition linalg_inv :: "mat \<Rightarrow> error + mat" where
  "linalg_inv A =
     (if \<not> rectangular (length A) A then Inl LinAlgError
      else if det A = 0 then Inl LinAlgError
      else Inr (map (\<lambda>i. map (\<lambda>j. (- 1) ^ (i + j) * det (minor A j i) / det A)
                              [0..<length A]) [0..<length A]))"

section \<open>LinearRegression\<close>

text \<open>
  The attributes of a constructed object. Both classes have attributes \<open>X\<close>, \<open>y\<close>,
  \<open>n\<close> and \<open>p\<close>, so the fields carry the class as a prefix.
\<close>

record LinearRegression =
  lr_X :: mat
  lr_y :: vec
  lr_n :: nat
  lr_p :: nat
  lr_coefficients :: "vec option"

text \<open>
  \<open>__init__\<close> assigns the attributes of \<open>self\<close> one after the other, and an exception
  leaves \<open>self\<close> with the attributes assigned so far. The object under construction is
  a record of optional attributes, \<open>None\<close> for an attribute that does not exist yet;
  \<open>__init__\<close> returns the exception raised, if any, and the object as it stands then.
\<close>

record lr_self =
  self_X :: "mat option"
  self_y :: "vec option"
  self_n :: "nat option"
  self_p :: "nat option"
  self_coefficients :: "vec option option"

definition lr_blank :: lr_self where
  "lr_blank = \<lparr>self_X = None, self_y = None, self_n = None, self_p = None,
                self_coefficients = None\<rparr>"

definition LinearRegression_init :: "mat \<Rightarrow> vec \<Rightarrow> error option \<times> lr_self" where
  "LinearRegression_init X y =
     (if length X \<noteq> length y
      then (Some (ValueError (Dimensional_error (length X) (length y))), lr_blank)
      else
        let s1 = lr_blank\<lparr>self_X := Some X\<rparr>;
            s2 = s1\<lparr>self_y := Some y\<rparr>;
            s3 = s2\<lparr>self_n := Some (length X)\<rparr>
        in (case X of
              [] \<Rightarrow> (Some IndexError, s3)
            | r # _ \<Rightarrow>
                let s4 = s3\<lparr>self_p := Some (length r)\<rparr>;
                    s5 = s4\<lparr>self_coefficients := Some None\<rparr>
                in (None, s5)))"

text \<open>The expression \<open>LinearRegression(X, y)\<close>: the object, or the exception of \<open>__init__\<close>.\<close>

definition LinearRegression_new :: "mat \<Rightarrow> vec \<Rightarrow> error + LinearRegression" where
  "LinearRegression_new X y =
     (case LinearRegression_init X y of
        (Some e, _) \<Rightarrow> Inl e
      | (None, s) \<Rightarrow>
          Inr \<lparr>lr_X = the (self_X s), lr_y = the (self_y s), lr_n = the (self_n s),
               lr_p = the (self_p s), lr_coefficients = the (self_coefficients s)\<rparr>)"

text \<open>
  \<open>fit\<close> returns nothing and assigns \<open>self.coefficients\<close>: the model returns the
  exception raised, if any, and the object afterwards.
\<close>

definition fit :: "LinearRegression \<Rightarrow> string \<Rightarrow> real \<Rightarrow> error option \<times> LinearRegression" where
  "fit self method h =
     (if method = ''OLS'' then
        let X_trans = np_transpose (lr_X self) in
        (case linalg_inv (np_dot_mm X_trans (lr_X self)) of
           Inl e \<Rightarrow> (Some e, self)
         | Inr A \<Rightarrow>
             let C = np_dot_mv X_trans (lr_y self)
             in (None, self\<lparr>lr_coefficients := Some (np_dot_mv A C)\<rparr>))
      else if method = ''ridge'' then
        let I = scalar_times h (np_identity (lr_p self));
            X_trans = np_transpose (lr_X self);
            shrinkage = np_dot_mm (np_transpose I) I
        in (case linalg_inv (mat_add (np_dot_mm X_trans (lr_X self)) shrinkage) of
              Inl e \<Rightarrow> (Some e, self)
            | Inr A \<Rightarrow>
                let C = np_dot_mv X_trans (lr_y self)
                in (None, self\<lparr>lr_coefficients := Some (np_dot_mv A C)\<rparr>))
      else (Some (ValueError (Invalid_method_argument method)), self))"

text \<open>
  \<open>predict\<close> loops over \<open>zip(self.coefficients, x)\<close>, which stops at the shorter of the
  two; \<open>zip(None, x)\<close> raises \<open>TypeError\<close>.
\<close>

definition predict :: "LinearRegression \<Rightarrow> vec \<Rightarrow> error + real" where
  "predict self x =
     (case lr_coefficients self of
        None \<Rightarrow> Inl TypeError
      | Some c \<Rightarrow> Inr (foldl (\<lambda>y term. y + fst term * snd term) 0 (zip c x)))"

text \<open>
  What the constructor guarantees of an object: \<open>X\<close> has \<open>n \<ge> 1\<close> rows of \<open>p\<close> entries
  and \<open>y\<close> has \<open>n\<close> entries.
\<close>

definition lr_wf :: "LinearRegression \<Rightarrow> bool" where
  "lr_wf self \<longleftrightarrow>
     lr_X self \<noteq> [] \<and> lr_n self = length (lr_X self) \<and> length (lr_y self) = lr_n self \<and>
     rectangular (lr_p self) (lr_X self)"

section \<open>KNN\<close>

record 'l KNN =
  knn_X :: mat
  knn_y :: "'l list"
  knn_n :: nat
  knn_p :: nat
  knn_k :: int

text \<open>
  What \<open>np.asarray\<close> returns: an array of one dimension or of two. The argument \<open>X\<close>
  of the constructor is a numpy array (a DataFrame behaves as the two-dimensional array
  of its values in all that the constructor does with it) or a Python list, given by
  the array it converts to.
\<close>

datatype ndarray = Array1 vec | Array2 mat

datatype array_like = Ndarray ndarray | PyList ndarray

fun np_asarray :: "array_like \<Rightarrow> ndarray" where
  "np_asarray (Ndarray a) = a"
| "np_asarray (PyList a) = a"

text \<open>\<open>len(X)\<close>: the number of entries along the first axis.\<close>

fun py_len :: "array_like \<Rightarrow> nat" where
  "py_len (Ndarray (Array1 v)) = length v"
| "py_len (Ndarray (Array2 m)) = length m"
| "py_len (PyList (Array1 v)) = length v"
| "py_len (PyList (Array2 m)) = length m"

text \<open>
  \<open>X.shape[1]\<close>, read on the argument itself: the number of columns of a
  two-dimensional array; the shape of a one-dimensional array has no entry \<open>1\<close>
  (\<open>IndexError\<close>), and a list has no attribute \<open>shape\<close> (\<open>AttributeError\<close>). The rows
  of an array without rows do not tell its number of columns; \<open>ncols\<close> is \<open>0\<close> there,
  and nothing below is stated about that case.
\<close>

fun shape1 :: "array_like \<Rightarrow> error + nat" where
  "shape1 (Ndarray (Array2 m)) = Inr (ncols m)"
| "shape1 (Ndarray (Array1 v)) = Inl IndexError"
| "shape1 (PyList a) = Inl AttributeError"

text \<open>
  The rows of the stored array. A constructed classifier holds a two-dimensional array,
  since \<open>X.shape[1]\<close> has succeeded; the one-dimensional case is never read.
\<close>

fun array_rows :: "ndarray \<Rightarrow> mat" where
  "array_rows (Array2 m) = m"
| "array_rows (Array1 v) = []"

record 'l knn_self =
  kself_X :: "ndarray option"
  kself_y :: "'l list option"
  kself_n :: "nat option"
  kself_p :: "nat option"
  kself_k :: "int option"

definition knn_blank :: "'l knn_self" where
  "knn_blank = \<lparr>kself_X = None, kself_y = None, kself_n = None, kself_p = None,
                 kself_k = None\<rparr>"

text \<open>
  \<open>a.reshape(m,)\<close> of a one-dimensional array raises \<open>ValueError\<close> ("cannot reshape
  array of size ... into shape (...,)") unless \<open>a\<close> has \<open>m\<close> entries.
\<close>

definition reshape :: "'l list \<Rightarrow> nat \<Rightarrow> error + 'l list" where
  "reshape a m = (if length a = m then Inr a else Inl (ValueError (Cannot_reshape (length a) m)))"

definition KNN_init :: "array_like \<Rightarrow> 'l list \<Rightarrow> int \<Rightarrow> error option \<times> 'l knn_self" where
  "KNN_init X y k =
     (let s1 = knn_blank\<lparr>kself_X := Some (np_asarray X)\<rparr>
      in (case reshape y (py_len X) of
            Inl e \<Rightarrow> (Some e, s1)
          | Inr y' \<Rightarrow>
              let s2 = s1\<lparr>kself_y := Some y'\<rparr>;
                  s3 = s2\<lparr>kself_n := Some (py_len X)\<rparr>
              in (case shape1 X of
                    Inl e \<Rightarrow> (Some e, s3)
                  | Inr p \<Rightarrow>
                      let s4 = s3\<lparr>kself_p := Some p\<rparr>;
                          s5 = s4\<lparr>kself_k := Some k\<rparr>
                      in (None, s5))))"

text \<open>The expression \<open>KNN(X, y, k)\<close>: the object, or the exception of \<open>__init__\<close>.\<close>

definition KNN_new :: "array_like \<Rightarrow> 'l list \<Rightarrow> int \<Rightarrow> error + 'l KNN" where
  "KNN_new X y k =
     (case KNN_init X y k of
        (Some e, _) \<Rightarrow> Inl e
      | (None, s) \<Rightarrow>
          Inr \<lparr>knn_X = array_rows (the (kself_X s)), knn_y = the (kself_y s),
               knn_n = the (kself_n s), knn_p = the (kself_p s), knn_k = the (kself_k s)\<rparr>)"

definition distance :: "vec \<Rightarrow> vec \<Rightarrow> error + real" where
  "distance p1 p2 =
     (if length p1 \<noteq> length p2
      then Inl (ValueError (Dimension_Error (length p1) (length p2)))
      else Inr (sqrt (foldl (\<lambda>d pair. d + (fst pair - snd pair)\<^sup>2) 0 (zip p1 p2))))"

text \<open>
  \<open>max(set(lst), key=lst.count)\<close>: \<open>max\<close> walks the set and keeps the first element
  whose key is the largest, and raises \<open>ValueError\<close> on an empty set. The order in which
  Python walks a set is fixed by the hashes of its elements; it is the parameter
  \<open>set_order\<close>, which lists the elements of \<open>set(lst)\<close> in that order.
\<close>

fun max_key :: "('a \<Rightarrow> nat) \<Rightarrow> 'a \<Rightarrow> 'a list \<Rightarrow> 'a" where
  "max_key f best [] = best"
| "max_key f best (a # as) = max_key f (if f best < f a then a else best) as"

definition most_common :: "('l list \<Rightarrow> 'l list) \<Rightarrow> 'l list \<Rightarrow> error + 'l" where
  "most_common set_order lst =
     (case set_order lst of
        [] \<Rightarrow> Inl (ValueError Max_empty_sequence)
      | a # as \<Rightarrow> Inr (max_key (count_list lst) a as))"

text \<open>A Python slice \<open>xs[start:stop]\<close>, with negative bounds counted from the end.\<close>

definition slice_index :: "int \<Rightarrow> nat \<Rightarrow> nat" where
  "slice_index i len = (if i < 0 then nat (max 0 (int len + i)) else min (nat i) len)"

definition slice :: "'a list \<Rightarrow> int \<Rightarrow> int \<Rightarrow> 'a list" where
  "slice xs start stop =
     drop (slice_index start (length xs)) (take (slice_index stop (length xs)) xs)"

text \<open>The loop of \<open>classify\<close> that collects the (distance, index) pairs.\<close>

fun collect_distances ::
  "vec \<Rightarrow> (nat \<times> vec) list \<Rightarrow> (real \<times> nat) list \<Rightarrow> error + (real \<times> nat) list" where
  "collect_distances x [] distances = Inr distances"
| "collect_distances x ((index, observation) # rest) distances =
     (case distance x observation of
        Inl e \<Rightarrow> Inl e
      | Inr d \<Rightarrow> collect_distances x rest (distances @ [(d, index)]))"

text \<open>\<open>sorted\<close> with a key is a stable sort, as \<open>sort_key\<close> is.\<close>

definition classify :: "('l list \<Rightarrow> 'l list) \<Rightarrow> 'l KNN \<Rightarrow> vec \<Rightarrow> error + 'l" where
  "classify set_order self x =
     (if length x \<noteq> knn_p self
      then Inl (ValueError (Dimension_Error_feature (length x) (knn_p self)))
      else
        (case collect_distances x (enumerate 0 (knn_X self)) [] of
           Inl e \<Rightarrow> Inl e
         | Inr distances \<Rightarrow>
             let distances' = slice (sort_key fst distances) 1 (knn_k self + 1);
                 indexes = map snd distances';
                 classes = map (\<lambda>i. knn_y self ! i) indexes
             in most_common set_order classes))"

text \<open>
  The loop of \<open>train_error\<close> and of \<open>test_error\<close>: \<open>classify\<close> runs before \<open>y[index]\<close>
  is read, and \<open>y[index]\<close> raises \<open>IndexError\<close> past the end of \<open>y\<close>.
\<close>

fun count_incorrect ::
  "('l list \<Rightarrow> 'l list) \<Rightarrow> 'l KNN \<Rightarrow> 'l list \<Rightarrow> (nat \<times> vec) list \<Rightarrow> nat \<Rightarrow> error + nat" where
  "count_incorrect set_order self y [] incorrect = Inr incorrect"
| "count_incorrect set_order self y ((index, observation) # rest) incorrect =
     (case classify set_order self observation of
        Inl e \<Rightarrow> Inl e
      | Inr c \<Rightarrow>
          if index < length y
          then count_incorrect set_order self y rest
                 (if c \<noteq> y ! index then incorrect + 1 else incorrect)
          else Inl IndexError)"

definition train_error :: "('l list \<Rightarrow> 'l list) \<Rightarrow> 'l KNN \<Rightarrow> error + real" where
  "train_error set_order self =
     (case count_incorrect set_order self (knn_y self) (enumerate 0 (knn_X self)) 0 of
        Inl e \<Rightarrow> Inl e
      | Inr incorrect \<Rightarrow>
          if knn_n self = 0 then Inl ZeroDivisionError
          else Inr (real incorrect / real (knn_n self)))"

definition test_error ::
  "('l list \<Rightarrow> 'l list) \<Rightarrow> 'l KNN \<Rightarrow> mat \<Rightarrow> 'l list \<Rightarrow> error + real" where
  "test_error set_order self X y =
     (case count_incorrect set_order self y (enumerate 0 X) 0 of
        Inl e \<Rightarrow> Inl e
      | Inr incorrect \<Rightarrow>
          if length X = 0 then Inl ZeroDivisionError
          else Inr (real incorrect / real (length X)))"

text \<open>
  What the constructor guarantees of a classifier: \<open>X\<close> has \<open>n\<close> rows of \<open>p\<close> entries
  and \<open>y\<close> has \<open>n\<close> entries.
\<close>

definition knn_wf :: "'l KNN \<Rightarrow> bool" where
  "knn_wf self \<longleftrightarrow>
     knn_n self = length (knn_X self) \<and> length (knn_y self) = knn_n self \<and>
     rectangular (knn_p self) (knn_X self)"

section \<open>The specification's formulas\<close>

text \<open>
  The matrices and values the specification names, written from its words, to compare
  with what the code computes.
\<close>

definition diag_mat :: "nat \<Rightarrow> real \<Rightarrow> mat" where
  "diag_mat k c = map (\<lambda>i. map (\<lambda>j. if i = j then c else 0) [0..<k]) [0..<k]"

text \<open>"Add \<open>c\<close> to every diagonal entry" of a matrix, leaving every other entry.\<close>

definition spec_add_to_diagonal :: "real \<Rightarrow> mat \<Rightarrow> mat" where
  "spec_add_to_diagonal c A = map (\<lambda>(i, r). r[i := r ! i + c]) (enumerate 0 A)"

text \<open>The ridge solution with diagonal shift \<open>c\<close>: the inverse of \<open>X\<^sup>tX + c\<cdot>I\<close> times \<open>X\<^sup>ty\<close>.\<close>

definition spec_ridge_coefficients :: "mat \<Rightarrow> vec \<Rightarrow> real \<Rightarrow> error + vec" where
  "spec_ridge_coefficients X y c =
     (case linalg_inv (spec_add_to_diagonal c (np_dot_mm (np_transpose X) X)) of
        Inl e \<Rightarrow> Inl e
      | Inr A \<Rightarrow> Inr (np_dot_mv A (np_dot_mv (np_transpose X) y)))"

text \<open>The Euclidean distance, the (distance, index) pairs of a query, and their order.\<close>

definition euclid :: "vec \<Rightarrow> vec \<Rightarrow> real" where
  "euclid a b = sqrt (sum_list (map (\<lambda>(u, v). (u - v)\<^sup>2) (zip a b)))"

definition spec_pairs :: "'l KNN \<Rightarrow> vec \<Rightarrow> (real \<times> nat) list" where
  "spec_pairs self x = map (\<lambda>i. (euclid x (knn_X self ! i), i)) [0..<knn_n self]"

definition ascending_stable :: "(real \<times> nat) list \<Rightarrow> bool" where
  "ascending_stable ps =
     sorted_wrt (\<lambda>a b. fst a < fst b \<or> (fst a = fst b \<and> snd a < snd b)) ps"

text \<open>A most common element of a list: one of its elements that no element outnumbers.\<close>

definition is_most_common :: "'l list \<Rightarrow> 'l \<Rightarrow> bool" where
  "is_most_common lst c \<longleftrightarrow> c \<in> set lst \<and> list_all (\<lambda>c'. count_list lst c' \<le> count_list lst c) lst"

text \<open>
  The training set of the specification's second end-to-end scenario, four points on a
  line with their labels, for a neighbour count \<open>k\<close>.
\<close>

definition scenario_knn :: "int \<Rightarrow> string KNN" where
  "scenario_knn k =
     \<lparr>knn_X = [[0], [1], [2], [10]], knn_y = [''a'', ''a'', ''a'', ''b''], knn_n = 4,
      knn_p = 1, knn_k = k\<rparr>"

section \<open>Matrices of the ridge fit\<close>

lemma scalar_times_identity: "scalar_times h (np_identity k) = diag_mat k h"
  by (simp add: scalar_times_def np_identity_def diag_mat_def)

lemma ncols_rectangular: "A \<noteq> [] \<Longrightarrow> rectangular c A \<Longrightarrow> ncols A = c"
  by (cases A) (simp_all add: ncols_def rectangular_def)

lemma rectangular_diag_mat: "rectangular k (diag_mat k c)"
  by (simp add: rectangular_def diag_mat_def list_all_iff)

lemma ncols_diag_mat: "ncols (diag_mat k c) = k"
proof (cases "k = 0")
  case True
  then show ?thesis by (simp add: ncols_def diag_mat_def)
next
  case False
  then have "diag_mat k c \<noteq> []" by (simp add: diag_mat_def)
  then show ?thesis by (rule ncols_rectangular) (rule rectangular_diag_mat)
qed

lemma column_diag_mat:
  "j < k \<Longrightarrow> column (diag_mat k c) j = map (\<lambda>i. if i = j then c else 0) [0..<k]"
  by (simp add: column_def diag_mat_def)

lemma transpose_diag_mat: "np_transpose (diag_mat k c) = diag_mat k c"
proof -
  have "map (column (diag_mat k c)) [0..<k] = map (\<lambda>j. map (\<lambda>i. if i = j then c else 0) [0..<k]) [0..<k]"
    by (rule map_cong) (simp_all add: column_diag_mat)
  also have "\<dots> = diag_mat k c"
    by (auto simp: diag_mat_def)
  finally show ?thesis
    by (simp add: np_transpose_def ncols_diag_mat)
qed

lemma sum_list_upt_sum: "sum_list (map f [0..<k]) = sum f {0..<k}"
  by (simp add: interv_sum_list_conv_sum_set_nat)

lemma dot_vv_indicator:
  assumes "i < k" "j < k"
  shows "dot_vv (map (\<lambda>t. if i = t then a else 0) [0..<k])
                (map (\<lambda>t. if t = j then b else 0) [0..<k]) = (if i = j then a * b else 0)"
proof -
  have "dot_vv (map (\<lambda>t. if i = t then a else 0) [0..<k]) (map (\<lambda>t. if t = j then b else 0) [0..<k])
        = sum_list (map (\<lambda>t. (if i = t then a else 0) * (if t = j then b else 0)) [0..<k])"
    by (simp add: dot_vv_def zip_map_map map_zip_map zip_same_conv_map o_def split_def)
  also have "\<dots> = (\<Sum>t\<in>{0..<k}. if t = i then (if i = j then a * b else 0) else 0)"
    unfolding sum_list_upt_sum by (rule sum.cong) auto
  also have "\<dots> = (if i = j then a * b else 0)"
    using assms by (simp add: sum.delta)
  finally show ?thesis .
qed

lemma dot_mm_diag_diag: "np_dot_mm (diag_mat k a) (diag_mat k b) = diag_mat k (a * b)"
proof -
  have "np_dot_mm (diag_mat k a) (diag_mat k b)
        = map (\<lambda>i. map (\<lambda>j. dot_vv (map (\<lambda>t. if i = t then a else 0) [0..<k])
                                      (column (diag_mat k b) j)) [0..<k]) [0..<k]"
    by (simp add: np_dot_mm_def ncols_diag_mat) (simp add: diag_mat_def o_def)
  also have "\<dots> = map (\<lambda>i. map (\<lambda>j. if i = j then a * b else 0) [0..<k]) [0..<k]"
    by (auto simp: column_diag_mat dot_vv_indicator)
  finally show ?thesis by (simp add: diag_mat_def)
qed

lemma shrinkage_eq:
  "np_dot_mm (np_transpose (scalar_times h (np_identity k))) (scalar_times h (np_identity k))
   = diag_mat k (h\<^sup>2)"
  by (simp add: scalar_times_identity transpose_diag_mat dot_mm_diag_diag power2_eq_square)

lemma mat_add_diag:
  assumes "length A = k" "rectangular k A"
  shows "mat_add A (diag_mat k c) = spec_add_to_diagonal c A"
proof (rule nth_equalityI)
  show "length (mat_add A (diag_mat k c)) = length (spec_add_to_diagonal c A)"
    using assms by (simp add: mat_add_def diag_mat_def spec_add_to_diagonal_def)
next
  fix i assume "i < length (mat_add A (diag_mat k c))"
  then have i: "i < k" using assms by (simp add: mat_add_def diag_mat_def)
  then have len: "length (A ! i) = k"
    using assms by (simp add: rectangular_def list_all_length)
  have "mat_add A (diag_mat k c) ! i = map2 (+) (A ! i) (map (\<lambda>j. if i = j then c else 0) [0..<k])"
    using i assms by (simp add: mat_add_def diag_mat_def)
  also have "\<dots> = (A ! i)[i := A ! i ! i + c]"
    using len i by (auto intro!: nth_equalityI simp: nth_list_update)
  also have "\<dots> = spec_add_to_diagonal c A ! i"
    using i assms by (simp add: spec_add_to_diagonal_def nth_enumerate_eq)
  finally show "mat_add A (diag_mat k c) ! i = spec_add_to_diagonal c A ! i" .
qed

lemma add_zero_to_diagonal:
  "spec_add_to_diagonal 0 A = A"
  by (rule nth_equalityI) (simp_all add: spec_add_to_diagonal_def nth_enumerate_eq)

lemma normal_matrix_shape:
  assumes "X \<noteq> []" "rectangular c X"
  shows "length (np_dot_mm (np_transpose X) X) = c"
    and "rectangular c (np_dot_mm (np_transpose X) X)"
  using assms
  by (simp_all add: np_dot_mm_def np_transpose_def ncols_rectangular rectangular_def list_all_iff)


lemma ridge_normal_matrix:
  assumes "lr_wf self"
  shows "mat_add (np_dot_mm (np_transpose (lr_X self)) (lr_X self))
           (np_dot_mm (np_transpose (scalar_times h (np_identity (lr_p self))))
                      (scalar_times h (np_identity (lr_p self))))
         = spec_add_to_diagonal (h\<^sup>2) (np_dot_mm (np_transpose (lr_X self)) (lr_X self))"
  using assms unfolding shrinkage_eq lr_wf_def
  by (intro mat_add_diag normal_matrix_shape) simp_all

section \<open>The inverse of small matrices\<close>

text \<open>
  On one-by-one and two-by-two matrices \<open>linalg_inv\<close> is the textbook inverse, and its
  product with the matrix is the identity.
\<close>

lemma linalg_inv_1x1:
  "a \<noteq> 0 \<Longrightarrow> linalg_inv [[a]] = Inr [[1 / a]]"
  by (simp add: linalg_inv_def rectangular_def minor_def del_def)

lemma linalg_inv_2x2:
  assumes "a * d - b * c \<noteq> 0"
  shows "linalg_inv [[a, b], [c, d]]
           = Inr [[d / (a * d - b * c), - b / (a * d - b * c)],
                  [- c / (a * d - b * c), a / (a * d - b * c)]]"
  using assms
  by (simp add: linalg_inv_def rectangular_def minor_def del_def upt_rec)

lemma linalg_inv_2x2_inverse:
  assumes "a * d - b * c \<noteq> 0" "linalg_inv [[a, b], [c, d]] = Inr B"
  shows "np_dot_mm [[a, b], [c, d]] B = np_identity 2"
proof -
  have B: "B = [[d / (a * d - b * c), - b / (a * d - b * c)],
                [- c / (a * d - b * c), a / (a * d - b * c)]]"
    using assms by (simp add: linalg_inv_2x2)
  have "a * d / (a * d - b * c) - b * c / (a * d - b * c) = 1"
    using assms(1) by (simp add: diff_divide_distrib [symmetric])
  then show ?thesis
    by (simp add: B np_dot_mm_def np_identity_def ncols_def column_def dot_vv_def upt_rec
          algebra_simps)
qed

section \<open>LinearRegression: sums and shapes\<close>

lemma foldl_add_sum_list:
  "foldl (\<lambda>acc t. acc + g t) a ts = a + sum_list (map g ts)" for a :: real
  by (induction ts arbitrary: a) simp_all

lemma sum_list_nth_sum: "sum_list xs = (\<Sum>i<length xs. xs ! i)" for xs :: "real list"
  by (simp add: sum_list_sum_nth atLeast0LessThan)

lemma length_linalg_inv: "linalg_inv A = Inr B \<Longrightarrow> length B = length A"
  by (auto simp: linalg_inv_def split: if_splits)

lemma fit_sets_coefficients:
  assumes "lr_wf self" "fit self method h = (None, self')"
  shows "lr_wf self' \<and> (\<exists>b. lr_coefficients self' = Some b \<and> length b = lr_p self')"
proof -
  have shape: "length (np_dot_mm (np_transpose (lr_X self)) (lr_X self)) = lr_p self"
    using assms(1) by (simp add: lr_wf_def normal_matrix_shape)
  have shape2: "length (spec_add_to_diagonal c (np_dot_mm (np_transpose (lr_X self)) (lr_X self))) = lr_p self" for c
    using shape by (simp add: spec_add_to_diagonal_def)
  show ?thesis
    using assms shape shape2
    by (auto simp: fit_def Let_def ridge_normal_matrix lr_wf_def np_dot_mv_def
             dest!: length_linalg_inv split: if_splits sum.splits)
qed

lemma LinearRegression_new_wf:
  assumes "LinearRegression_new X y = Inr self" "rectangular (ncols X) X"
  shows "lr_wf self \<and> lr_X self = X \<and> lr_y self = y \<and> lr_coefficients self = None"
  using assms
  by (auto simp: LinearRegression_new_def LinearRegression_init_def Let_def lr_wf_def ncols_def
           split: if_splits list.splits)

section \<open>LinearRegression: the fit\<close>

text \<open>
  C1. A ridge fit with tuning parameter \<open>h\<close> does not add \<open>h\<close> to the diagonal of
  \<open>X\<^sup>tX\<close>: the penalty matrix is the product of \<open>h\<cdot>I\<close> with itself, so on the object
  with \<open>X = [[1]]\<close>, \<open>y = [1]\<close> and \<open>h = 2\<close> the fit yields \<open>1/5\<close>, where
  \<open>(X\<^sup>tX + h\<cdot>I)\<^sup>-\<^sup>1 X\<^sup>ty\<close> is \<open>1/3\<close>.
\<close>

theorem fit_ridge_counterexample:
  "fit \<lparr>lr_X = [[1]], lr_y = [1], lr_n = 1, lr_p = 1, lr_coefficients = None\<rparr> ''ridge'' 2
     = (None, \<lparr>lr_X = [[1]], lr_y = [1], lr_n = 1, lr_p = 1, lr_coefficients = Some [1 / 5]\<rparr>) \<and>
   spec_ridge_coefficients [[1]] [1] 2 = Inr [1 / 3]"
  by (simp add: fit_def np_identity_def scalar_times_def np_transpose_def ncols_def
        column_def np_dot_mm_def np_dot_mv_def dot_vv_def mat_add_def linalg_inv_def
        rectangular_def minor_def del_def spec_ridge_coefficients_def
        spec_add_to_diagonal_def enumerate_eq_zip)

text \<open>
  C1, as the code has it. For every object the constructor can build, a ridge fit with
  tuning parameter \<open>h\<close> sets the coefficients to \<open>(X\<^sup>tX + h\<^sup>2\<cdot>I)\<^sup>-\<^sup>1 X\<^sup>ty\<close>: exactly \<open>h\<^sup>2\<close> is
  added to every diagonal entry of the normal-equation matrix before it is inverted; when
  that matrix has no inverse the fit raises and the object is unchanged.
\<close>

theorem fit_ridge_adds_h_squared:
  assumes "lr_wf self"
  shows "fit self ''ridge'' h =
           (case spec_ridge_coefficients (lr_X self) (lr_y self) (h\<^sup>2) of
              Inl e \<Rightarrow> (Some e, self)
            | Inr c \<Rightarrow> (None, self\<lparr>lr_coefficients := Some c\<rparr>))"
  by (simp add: fit_def Let_def ridge_normal_matrix [OF assms] spec_ridge_coefficients_def
           split: sum.splits)

theorem fit_ridge_adds_h_squared_witness:
  "lr_wf \<lparr>lr_X = [[1, 1], [1, 2], [1, 3]], lr_y = [2, 4, 6], lr_n = 3, lr_p = 2,
      lr_coefficients = None\<rparr> \<and>
   fit \<lparr>lr_X = [[1, 1], [1, 2], [1, 3]], lr_y = [2, 4, 6], lr_n = 3, lr_p = 2,
      lr_coefficients = None\<rparr> ''ridge'' 2
     = (None, \<lparr>lr_X = [[1, 1], [1, 2], [1, 3]], lr_y = [2, 4, 6], lr_n = 3, lr_p = 2,
               lr_coefficients = Some [8 / 15, 62 / 45]\<rparr>)"
proof -
  have wf: "lr_wf \<lparr>lr_X = [[1, 1], [1, 2], [1, 3]], lr_y = [2, 4, 6], lr_n = 3, lr_p = 2,
      lr_coefficients = None\<rparr>"
    by (simp add: lr_wf_def rectangular_def)
  have "spec_ridge_coefficients [[1, 1], [1, 2], [1, 3]] [2, 4, 6] (2\<^sup>2) = Inr [8 / 15, 62 / 45]"
    by (simp add: spec_ridge_coefficients_def spec_add_to_diagonal_def enumerate_eq_zip
          np_transpose_def ncols_def column_def np_dot_mm_def np_dot_mv_def dot_vv_def
          linalg_inv_def rectangular_def minor_def del_def upt_rec)
  with fit_ridge_adds_h_squared [OF wf, of 2] wf show ?thesis by simp
qed

text \<open>
  C2. For every object the constructor can build, a ridge fit with tuning parameter \<open>0\<close>
  does what the ordinary fit does: the same coefficients when the ordinary fit succeeds
  (and the same exception when it does not).
\<close>

theorem fit_ridge_zero_is_OLS:
  assumes "lr_wf self"
  shows "fit self ''ridge'' 0 = fit self ''OLS'' h"
  by (simp add: fit_def Let_def ridge_normal_matrix [OF assms] add_zero_to_diagonal)

theorem fit_ridge_zero_is_OLS_witness:
  "lr_wf \<lparr>lr_X = [[1, 1], [1, 2], [1, 3]], lr_y = [2, 4, 6], lr_n = 3, lr_p = 2,
      lr_coefficients = None\<rparr> \<and>
   fit \<lparr>lr_X = [[1, 1], [1, 2], [1, 3]], lr_y = [2, 4, 6], lr_n = 3, lr_p = 2,
      lr_coefficients = None\<rparr> ''ridge'' 0
     = (None, \<lparr>lr_X = [[1, 1], [1, 2], [1, 3]], lr_y = [2, 4, 6], lr_n = 3, lr_p = 2,
               lr_coefficients = Some [0, 2]\<rparr>)"
proof -
  have wf: "lr_wf \<lparr>lr_X = [[1, 1], [1, 2], [1, 3]], lr_y = [2, 4, 6], lr_n = 3, lr_p = 2,
      lr_coefficients = None\<rparr>"
    by (simp add: lr_wf_def rectangular_def)
  have "fit \<lparr>lr_X = [[1, 1], [1, 2], [1, 3]], lr_y = [2, 4, 6], lr_n = 3, lr_p = 2,
      lr_coefficients = None\<rparr> ''OLS'' 1
     = (None, \<lparr>lr_X = [[1, 1], [1, 2], [1, 3]], lr_y = [2, 4, 6], lr_n = 3, lr_p = 2,
               lr_coefficients = Some [0, 2]\<rparr>)"
    by (simp add: fit_def np_transpose_def ncols_def column_def np_dot_mm_def np_dot_mv_def
          dot_vv_def linalg_inv_def rectangular_def minor_def del_def upt_rec)
  with fit_ridge_zero_is_OLS [OF wf, of 1] wf show ?thesis by simp
qed

text \<open>
  C7. With a method other than \<open>OLS\<close> and \<open>ridge\<close>, \<open>fit\<close> raises the \<open>ValueError\<close>
  "Invalid method argument" and leaves the whole object, its coefficients included, as
  it was.
\<close>

theorem fit_unsupported_method:
  assumes "method \<noteq> ''OLS''" "method \<noteq> ''ridge''"
  shows "fit self method h = (Some (ValueError (Invalid_method_argument method)), self)"
  using assms by (simp add: fit_def)

theorem fit_unsupported_method_witness:
  "fit \<lparr>lr_X = [[1]], lr_y = [1], lr_n = 1, lr_p = 1, lr_coefficients = None\<rparr> ''lasso'' 1
     = (Some (ValueError (Invalid_method_argument ''lasso'')),
        \<lparr>lr_X = [[1]], lr_y = [1], lr_n = 1, lr_p = 1, lr_coefficients = None\<rparr>)"
  using fit_unsupported_method [of "''lasso''" "\<lparr>lr_X = [[1]], lr_y = [1], lr_n = 1, lr_p = 1, lr_coefficients = None\<rparr>" 1]
  by simp

section \<open>LinearRegression: prediction\<close>

text \<open>
  C4. \<open>predict\<close> does not fail on an input of another length than \<open>p\<close>: with
  coefficients \<open>[1, 2]\<close> the input \<open>[3]\<close> is answered by \<open>3\<close>.
\<close>

theorem predict_counterexample:
  "predict \<lparr>lr_X = [[1, 1], [1, 2]], lr_y = [3, 5], lr_n = 2, lr_p = 2,
            lr_coefficients = Some [1, 2]\<rparr> [3] = Inr 3"
  by (simp add: predict_def)

text \<open>
  C4, as the code has it. On a fitted object \<open>predict\<close> checks no length and raises
  nothing: it returns the sum of the products of coefficient and input entry over the
  positions both have, which is the dot product of the coefficients and \<open>x\<close> when \<open>x\<close>
  has as many entries as there are coefficients.
\<close>

theorem predict_truncates:
  assumes "lr_coefficients self = Some c"
  shows "predict self x = Inr (\<Sum>i<min (length c) (length x). c ! i * x ! i)"
proof -
  have "foldl (\<lambda>y term. y + fst term * snd term) 0 (zip c x)
        = sum_list (map (\<lambda>t. fst t * snd t) (zip c x))"
    by (simp add: foldl_add_sum_list)
  also have "\<dots> = (\<Sum>i<min (length c) (length x). c ! i * x ! i)"
    by (simp add: sum_list_nth_sum)
  finally show ?thesis using assms by (simp add: predict_def)
qed

theorem predict_truncates_witness:
  "predict \<lparr>lr_X = [[1, 1], [1, 2]], lr_y = [3, 5], lr_n = 2, lr_p = 2,
            lr_coefficients = Some [1, 2]\<rparr> [3, 4] = Inr 11"
  using predict_truncates [of "\<lparr>lr_X = [[1, 1], [1, 2]], lr_y = [3, 5], lr_n = 2, lr_p = 2,
            lr_coefficients = Some [1, 2]\<rparr>" "[1, 2]" "[3, 4]"]
  by (simp add: lessThan_Suc eval_nat_numeral)

section \<open>KNN: distances, sorting, voting\<close>

lemma distance_euclid: "length a = length b \<Longrightarrow> distance a b = Inr (euclid a b)"
  by (simp add: distance_def euclid_def foldl_add_sum_list split_def)

lemma collect_distances_eq:
  assumes "\<forall>t\<in>set rows. length (snd t) = length x"
  shows "collect_distances x rows acc = Inr (acc @ map (\<lambda>t. (euclid x (snd t), fst t)) rows)"
  using assms
proof (induction rows arbitrary: acc)
  case Nil
  then show ?case by simp
next
  case (Cons t rows)
  obtain i r where t: "t = (i, r)" by (cases t)
  with Cons.prems have "distance x r = Inr (euclid x r)"
    by (simp add: distance_euclid)
  with Cons t show ?case by simp
qed

lemma enumerate_pairs:
  "map (\<lambda>t. (euclid x (snd t), fst t)) (enumerate 0 X)
   = map (\<lambda>i. (euclid x (X ! i), i)) [0..<length X]"
  by (rule nth_equalityI) (simp_all add: nth_enumerate_eq)

lemma collect_distances_spec:
  assumes "knn_wf self" "length x = knn_p self"
  shows "collect_distances x (enumerate 0 (knn_X self)) [] = Inr (spec_pairs self x)"
proof -
  have "\<forall>t\<in>set (enumerate 0 (knn_X self)). length (snd t) = length x"
    using assms by (auto simp: knn_wf_def rectangular_def list_all_iff in_set_enumerate_eq)
  then show ?thesis
    using assms(1) by (simp add: collect_distances_eq enumerate_pairs spec_pairs_def knn_wf_def)
qed

lemma insort_ascending_stable:
  assumes "ascending_stable S" "\<forall>b\<in>set S. snd a < snd b"
  shows "ascending_stable (insort_key fst a S)"
  using assms
proof (induction S)
  case Nil
  then show ?case by (simp add: ascending_stable_def)
next
  case (Cons b S)
  show ?case
  proof (cases "fst a \<le> fst b")
    case True
    have after: "fst b \<le> fst c" if "c \<in> set S" for c
    proof -
      from Cons.prems(1) that have "fst b < fst c \<or> fst b = fst c \<and> snd b < snd c"
        by (simp add: ascending_stable_def)
      then show ?thesis by linarith
    qed
    have "fst a < fst c \<or> fst a = fst c \<and> snd a < snd c" if c: "c \<in> set (b # S)" for c
    proof -
      have "fst a \<le> fst c"
      proof (cases "c = b")
        case True
        with \<open>fst a \<le> fst b\<close> show ?thesis by simp
      next
        case False
        with c have "c \<in> set S" by simp
        from after [OF this] \<open>fst a \<le> fst b\<close> show ?thesis by linarith
      qed
      moreover have "snd a < snd c" using Cons.prems(2) c by blast
      ultimately show ?thesis by linarith
    qed
    then show ?thesis
      using True Cons.prems(1) by (simp add: ascending_stable_def)
  next
    case False
    have "ascending_stable (insort_key fst a S)"
      using Cons by (simp add: ascending_stable_def)
    then show ?thesis
      using False Cons.prems(1) by (auto simp: ascending_stable_def set_insort_key)
  qed
qed

lemma sort_key_ascending_stable:
  assumes "sorted_wrt (<) (map snd ps)"
  shows "ascending_stable (sort_key fst ps)"
  using assms
proof (induction ps)
  case Nil
  then show ?case by (simp add: ascending_stable_def)
next
  case (Cons a ps)
  then have "ascending_stable (sort_key fst ps)" by simp
  moreover have "\<forall>b\<in>set (sort_key fst ps). snd a < snd b"
    using Cons.prems by auto
  ultimately show ?case by (simp add: insort_ascending_stable)
qed

lemma map_snd_spec_pairs: "map snd (spec_pairs self x) = [0..<knn_n self]"
  by (simp add: spec_pairs_def o_def)

lemma sorted_pairs_ascending_stable: "ascending_stable (sort_key fst (spec_pairs self x))"
  by (rule sort_key_ascending_stable) (simp add: map_snd_spec_pairs sorted_wrt_upt)

lemma max_key_in: "max_key f b as \<in> set (b # as)"
  by (induction as arbitrary: b) auto

lemma max_key_greatest: "z \<in> set (b # as) \<Longrightarrow> f z \<le> f (max_key f b as)"
proof (induction as arbitrary: b z)
  case Nil
  then show ?case by simp
next
  case (Cons a as)
  have step: "f (if f b < f a then a else b) \<le> f (max_key f (if f b < f a then a else b) as)"
    by (rule Cons.IH) simp
  show ?case
  proof (cases "z \<in> set as")
    case True
    then show ?thesis using Cons.IH [of z] by simp
  next
    case False
    with Cons.prems have "z = b \<or> z = a" by auto
    then have "f z \<le> f (if f b < f a then a else b)" by auto
    with step show ?thesis by simp
  qed
qed

lemma most_common_is_most_common:
  assumes "set (set_order lst) = set lst" "lst \<noteq> []"
  shows "\<exists>c. most_common set_order lst = Inr c \<and> is_most_common lst c"
proof (cases "set_order lst")
  case Nil
  with assms show ?thesis by simp
next
  case (Cons a as)
  let ?c = "max_key (count_list lst) a as"
  have "?c \<in> set (set_order lst)"
    unfolding Cons by (rule max_key_in)
  then have "?c \<in> set lst"
    by (simp only: assms(1))
  moreover have "count_list lst z \<le> count_list lst ?c" if "z \<in> set lst" for z
  proof -
    from that have "z \<in> set (a # as)" using assms(1) Cons by simp
    then show ?thesis by (rule max_key_greatest)
  qed
  ultimately show ?thesis
    using Cons by (simp add: most_common_def is_most_common_def list_all_iff)
qed

lemma drop_take_window:
  assumes "m \<le> length xs"
  shows "drop 1 (take m xs) = map (\<lambda>j. xs ! j) [1..<m]"
  using assms by (intro nth_equalityI) simp_all

lemma slice_window:
  assumes "1 \<le> k" "k < int (length xs)"
  shows "slice xs 1 (k + 1) = map (\<lambda>j. xs ! j) [1..<nat k + 1]"
proof -
  have m: "nat k + 1 \<le> length xs" using assms by linarith
  have "slice_index 1 (length xs) = 1" "slice_index (k + 1) (length xs) = nat k + 1"
    using assms by (simp_all add: slice_index_def min_def nat_add_distrib)
  then have "slice xs 1 (k + 1) = drop 1 (take (nat k + 1) xs)"
    by (simp only: slice_def)
  then show ?thesis
    by (simp only: drop_take_window [OF m])
qed

lemma slice_clamped:
  assumes "int (length xs) \<le> k" "xs \<noteq> []"
  shows "slice xs 1 (k + 1) = tl xs"
proof -
  have "slice_index 1 (length xs) = 1" "slice_index (k + 1) (length xs) = length xs"
    using assms by (simp_all add: slice_index_def min_def Suc_leI)
  then have "slice xs 1 (k + 1) = drop 1 xs"
    by (simp add: slice_def)
  then show ?thesis by (simp add: drop_Suc)
qed

lemma classify_sorted:
  assumes "knn_wf self" "length x = knn_p self"
  shows "classify set_order self x =
           most_common set_order
             (map (\<lambda>t. knn_y self ! snd t)
                (slice (sort_key fst (spec_pairs self x)) 1 (knn_k self + 1)))"
  using assms by (simp add: classify_def collect_distances_spec Let_def o_def)

lemma length_sorted_pairs: "length (sort_key fst (spec_pairs self x)) = knn_n self"
  by (simp add: spec_pairs_def)

lemma sorted_pairs_indices:
  "distinct (map snd (sort_key fst (spec_pairs self x)))"
  "set (map snd (sort_key fst (spec_pairs self x))) = {0..<knn_n self}"
proof -
  have "mset (map snd (sort_key fst (spec_pairs self x))) = mset (map snd (spec_pairs self x))"
    by (simp only: mset_map mset_sort)
  then have "mset (map snd (sort_key fst (spec_pairs self x))) = mset [0..<knn_n self]"
    by (simp only: map_snd_spec_pairs)
  then show "distinct (map snd (sort_key fst (spec_pairs self x)))"
    "set (map snd (sort_key fst (spec_pairs self x))) = {0..<knn_n self}"
    by (metis distinct_upt mset_eq_imp_distinct_iff, metis mset_eq_setD atLeastLessThan_upt)
qed

lemma KNN_init_success:
  assumes "KNN_init X y k = (None, s)"
  shows "\<exists>m. X = Ndarray (Array2 m) \<and> length y = length m \<and>
             s = \<lparr>kself_X = Some (Array2 m), kself_y = Some y, kself_n = Some (length m),
                  kself_p = Some (ncols m), kself_k = Some k\<rparr>"
  using assms
  by (cases X rule: shape1.cases)
     (auto simp: KNN_init_def reshape_def knn_blank_def Let_def split: if_splits)

lemma KNN_init_list:
  assumes "py_len (PyList a) = length y"
  shows "KNN_init (PyList a) y k
           = (Some AttributeError,
              \<lparr>kself_X = Some a, kself_y = Some y, kself_n = Some (length y), kself_p = None,
                 kself_k = None\<rparr>)"
  using assms by (simp add: KNN_init_def reshape_def knn_blank_def)

lemma KNN_init_one_dimensional:
  assumes "length v = length y"
  shows "KNN_init (Ndarray (Array1 v)) y k
           = (Some IndexError,
              \<lparr>kself_X = Some (Array1 v), kself_y = Some y, kself_n = Some (length y),
                 kself_p = None, kself_k = None\<rparr>)"
  using assms by (simp add: KNN_init_def reshape_def knn_blank_def)

lemma KNN_new_wf:
  assumes "KNN_new X y k = Inr self" "rectangular (ncols (array_rows (np_asarray X))) (array_rows (np_asarray X))"
  shows "knn_wf self \<and> X = Ndarray (Array2 (knn_X self)) \<and> knn_y self = y \<and> knn_k self = k"
proof -
  from assms(1) obtain s where s: "KNN_init X y k = (None, s)"
    by (cases "KNN_init X y k") (auto simp: KNN_new_def split: option.splits)
  from KNN_init_success [OF s] obtain m where m: "X = Ndarray (Array2 m)" "length y = length m"
    "s = \<lparr>kself_X = Some (Array2 m), kself_y = Some y, kself_n = Some (length m),
          kself_p = Some (ncols m), kself_k = Some k\<rparr>"
    by blast
  from assms(1) have "self = \<lparr>knn_X = m, knn_y = y, knn_n = length m, knn_p = ncols m, knn_k = k\<rparr>"
    by (simp add: KNN_new_def s m(3))
  with assms(2) m show ?thesis
    by (simp add: knn_wf_def)
qed

section \<open>KNN: the error loop\<close>

lemma count_incorrect_eq:
  assumes "\<forall>r\<in>set rows. \<exists>l. classify set_order self r = Inr l" "s + length rows \<le> length y"
  shows "count_incorrect set_order self y (enumerate s rows) acc
         = Inr (acc + length (filter (\<lambda>(r, l). classify set_order self r \<noteq> Inr l)
                                (zip rows (drop s y))))"
  using assms
proof (induction rows arbitrary: s acc)
  case Nil
  then show ?case by simp
next
  case (Cons r rows)
  from Cons.prems(1) obtain c where c: "classify set_order self r = Inr c" by auto
  from Cons.prems(2) have s: "s < length y" by simp
  then have d: "drop s y = y ! s # drop (Suc s) y" by (simp add: Cons_nth_drop_Suc)
  have "count_incorrect set_order self y (enumerate (Suc s) rows)
          (if c \<noteq> y ! s then acc + 1 else acc)
        = Inr ((if c \<noteq> y ! s then acc + 1 else acc)
               + length (filter (\<lambda>(r, l). classify set_order self r \<noteq> Inr l)
                                (zip rows (drop (Suc s) y))))"
    using Cons.prems by (intro Cons.IH) simp_all
  then show ?case using c s by (simp add: d)
qed

lemma count_incorrect_short:
  assumes "\<forall>r\<in>set rows. \<exists>l. classify set_order self r = Inr l"
    "s \<le> length y" "length y < s + length rows"
  shows "count_incorrect set_order self y (enumerate s rows) acc = Inl IndexError"
  using assms
proof (induction rows arbitrary: s acc)
  case Nil
  then show ?case by simp
next
  case (Cons r rows)
  from Cons.prems(1) obtain c where c: "classify set_order self r = Inr c" by auto
  show ?case
  proof (cases "s < length y")
    case True
    have "count_incorrect set_order self y (enumerate (Suc s) rows)
            (if c \<noteq> y ! s then acc + 1 else acc) = Inl IndexError"
      using Cons.prems True by (intro Cons.IH) simp_all
    then show ?thesis using c True by simp
  next
    case False
    then show ?thesis using c by simp
  qed
qed

section \<open>KNN: classification\<close>

text \<open>
  C3. For a classifier of the constructor with \<open>n\<close> training points, a query \<open>x\<close> of
  length \<open>p\<close> and \<open>1 \<le> k < n\<close>: the sorted list is a rearrangement of the \<open>n\<close> pairs of
  Euclidean distance and index, ascending in the distance with equal distances in index
  order; the pairs at its positions \<open>1, \<dots>, k\<close> are selected, the pair at position \<open>0\<close>
  is dropped; and \<open>classify\<close> returns a most common label among the labels of the
  selected points. The order in which Python walks a set decides between labels of
  equal count, whatever it is.
\<close>

theorem classify_window:
  assumes "knn_wf self" "\<forall>l. set (set_order l) = set l" "length x = knn_p self"
    "1 \<le> knn_k self" "knn_k self < int (knn_n self)"
  shows "let srt = sort_key fst (spec_pairs self x);
             window = map (\<lambda>j. srt ! j) [1..<nat (knn_k self) + 1];
             classes = map (\<lambda>t. knn_y self ! snd t) window
         in mset srt = mset (spec_pairs self x) \<and> ascending_stable srt \<and>
            (\<exists>c. classify set_order self x = Inr c \<and> is_most_common classes c)"
proof -
  let ?srt = "sort_key fst (spec_pairs self x)"
  let ?window = "map (\<lambda>j. ?srt ! j) [1..<nat (knn_k self) + 1]"
  let ?classes = "map (\<lambda>t. knn_y self ! snd t) ?window"
  have "slice ?srt 1 (knn_k self + 1) = ?window"
    using assms(4,5) by (intro slice_window) (simp_all only: length_sorted_pairs)
  then have cl: "classify set_order self x = most_common set_order ?classes"
    using assms(1,3) by (simp only: classify_sorted)
  have "?classes \<noteq> []" using assms(4) by simp
  moreover have "set (set_order ?classes) = set ?classes" using assms(2) by blast
  ultimately have "\<exists>c. most_common set_order ?classes = Inr c \<and> is_most_common ?classes c"
    by (intro most_common_is_most_common)
  with cl have "\<exists>c. classify set_order self x = Inr c \<and> is_most_common ?classes c"
    by simp
  moreover have "mset ?srt = mset (spec_pairs self x)" by simp
  moreover have "ascending_stable ?srt" by (rule sorted_pairs_ascending_stable)
  ultimately show ?thesis unfolding Let_def by blast
qed

theorem classify_window_witness:
  "knn_wf (scenario_knn 3) \<and>
   (\<forall>l :: string list. set (remdups l) = set l) \<and>
   classify remdups (scenario_knn 3) [1 / 2] = Inr ''a''"
proof -
  have wf: "knn_wf (scenario_knn 3)"
    by (simp add: scenario_knn_def knn_wf_def rectangular_def)
  have so: "\<forall>l :: string list. set (remdups l) = set l" by simp
  have cl: "classify remdups (scenario_knn 3) [1 / 2] = Inr ''a''"
    by (simp add: scenario_knn_def classify_def distance_def enumerate_eq_zip slice_def slice_index_def most_common_def upt_rec)
  from classify_window [OF wf so, of "[1 / 2]"] wf so cl show ?thesis
    by simp
qed

text \<open>
  C10. With \<open>n \<ge> 2\<close> training points, a query of length \<open>p\<close> and \<open>k \<ge> n\<close>, \<open>classify\<close>
  raises nothing: the slice stops at the end of the sorted list, so the selected pairs
  are all but the first, the \<open>n - 1\<close> training points other than one at the least
  distance, and the result is a most common label among theirs.
\<close>

theorem classify_clamped:
  assumes "knn_wf self" "\<forall>l. set (set_order l) = set l" "length x = knn_p self"
    "2 \<le> knn_n self" "int (knn_n self) \<le> knn_k self"
  shows "let srt = sort_key fst (spec_pairs self x);
             classes = map (\<lambda>t. knn_y self ! snd t) (tl srt)
         in mset srt = mset (spec_pairs self x) \<and> ascending_stable srt \<and>
            (\<forall>t\<in>set srt. fst (hd srt) \<le> fst t) \<and>
            length (tl srt) = knn_n self - 1 \<and> distinct (map snd (tl srt)) \<and>
            set (map snd (tl srt)) = {0..<knn_n self} - {snd (hd srt)} \<and>
            (\<exists>c. classify set_order self x = Inr c \<and> is_most_common classes c)"
proof -
  let ?srt = "sort_key fst (spec_pairs self x)"
  let ?classes = "map (\<lambda>t. knn_y self ! snd t) (tl ?srt)"
  have len: "length ?srt = knn_n self" by (rule length_sorted_pairs)
  with assms(4) obtain h t where ht: "?srt = h # t" by (cases ?srt) auto
  have "sorted (map fst ?srt)" by (rule sorted_sort_key)
  then have least: "\<forall>q\<in>set ?srt. fst (hd ?srt) \<le> fst q"
    unfolding ht by auto
  have lent: "length (tl ?srt) = knn_n self - 1" using len by simp
  have d: "distinct (map snd (tl ?srt))"
    using sorted_pairs_indices(1) [of self x] unfolding ht by simp
  have "distinct (snd h # map snd t)" "set (snd h # map snd t) = {0..<knn_n self}"
    using sorted_pairs_indices [of self x] by (simp_all only: ht list.map)
  then have "snd h \<notin> set (map snd t)" "insert (snd h) (set (map snd t)) = {0..<knn_n self}"
    by simp_all
  then have "set (map snd t) = {0..<knn_n self} - {snd h}" by blast
  then have s: "set (map snd (tl ?srt)) = {0..<knn_n self} - {snd (hd ?srt)}"
    by (simp only: ht list.sel)
  have "int (length ?srt) \<le> knn_k self"
    using assms(5) by (simp only: len)
  moreover have "?srt \<noteq> []"
    by (simp only: ht) simp
  ultimately have "slice ?srt 1 (knn_k self + 1) = tl ?srt"
    by (rule slice_clamped)
  then have cl: "classify set_order self x = most_common set_order ?classes"
    using assms(1,3) by (simp only: classify_sorted)
  have "0 < length (tl ?srt)" using assms(4) lent by linarith
  then have "tl ?srt \<noteq> []" by (rule iffD1 [OF length_greater_0_conv])
  then have "?classes \<noteq> []" by simp
  moreover have "set (set_order ?classes) = set ?classes" using assms(2) by blast
  ultimately have "\<exists>c. most_common set_order ?classes = Inr c \<and> is_most_common ?classes c"
    by (intro most_common_is_most_common)
  with cl have "\<exists>c. classify set_order self x = Inr c \<and> is_most_common ?classes c"
    by simp
  moreover have "mset ?srt = mset (spec_pairs self x)" by simp
  moreover have "ascending_stable ?srt" by (rule sorted_pairs_ascending_stable)
  ultimately show ?thesis using least lent d s unfolding Let_def by blast
qed

theorem classify_clamped_witness:
  "knn_wf (scenario_knn 10) \<and>
   (\<forall>l :: string list. set (remdups l) = set l) \<and>
   classify remdups (scenario_knn 10) [9] = Inr ''a''"
proof -
  have wf: "knn_wf (scenario_knn 10)"
    by (simp add: scenario_knn_def knn_wf_def rectangular_def)
  have so: "\<forall>l :: string list. set (remdups l) = set l" by simp
  have cl: "classify remdups (scenario_knn 10) [9] = Inr ''a''"
    by (simp add: scenario_knn_def classify_def distance_def enumerate_eq_zip slice_def slice_index_def most_common_def upt_rec)
  from classify_clamped [OF wf so, of "[9]"] wf so cl show ?thesis
    by simp
qed

text \<open>
  C9. \<open>test_error\<close> does not fail on inputs of different lengths: with one row and two
  labels it returns \<open>0.0\<close>.
\<close>

theorem test_error_counterexample:
  "test_error remdups (scenario_knn 3) [[1 / 2]] [''a'', ''b''] = Inr 0"
  by (simp add: test_error_def scenario_knn_def classify_def distance_def enumerate_eq_zip slice_def slice_index_def most_common_def upt_rec)

text \<open>
  C9, as the code has it. \<open>test_error\<close> compares no lengths. When every row classifies:
  with fewer labels than rows it raises \<open>IndexError\<close> at the first row without a
  label; with at least one row and at least as many labels as rows it returns the
  fraction of rows whose classification differs from the label at the same position
  (labels past the last row are not read), \<open>0\<close> when every classification is the
  label and \<open>1\<close> when none is.
\<close>

theorem test_error_fraction:
  assumes "\<forall>r\<in>set X. \<exists>l. classify set_order self r = Inr l"
  shows "(length y < length X \<longrightarrow> test_error set_order self X y = Inl IndexError) \<and>
         (X \<noteq> [] \<and> length X \<le> length y \<longrightarrow>
            test_error set_order self X y
              = Inr (real (length (filter (\<lambda>(r, l). classify set_order self r \<noteq> Inr l) (zip X y)))
                     / real (length X)) \<and>
            ((\<forall>(r, l)\<in>set (zip X y). classify set_order self r = Inr l) \<longrightarrow>
               test_error set_order self X y = Inr 0) \<and>
            ((\<forall>(r, l)\<in>set (zip X y). classify set_order self r \<noteq> Inr l) \<longrightarrow>
               test_error set_order self X y = Inr 1))"
proof -
  let ?wrong = "filter (\<lambda>(r, l). classify set_order self r \<noteq> Inr l) (zip X y)"
  have short: "test_error set_order self X y = Inl IndexError" if "length y < length X"
    using count_incorrect_short [OF assms, of 0 y 0] that by (simp add: test_error_def)
  have frac: "test_error set_order self X y = Inr (real (length ?wrong) / real (length X))"
    if "X \<noteq> []" "length X \<le> length y"
    using count_incorrect_eq [OF assms, of 0 y 0] that by (simp add: test_error_def)
  have none: "?wrong = []" if "\<forall>(r, l)\<in>set (zip X y). classify set_order self r = Inr l"
    using that by (auto simp: filter_empty_conv)
  have all: "length ?wrong = length X"
    if "length X \<le> length y" "\<forall>(r, l)\<in>set (zip X y). classify set_order self r \<noteq> Inr l"
  proof -
    have "?wrong = zip X y" using that(2) by (auto simp: filter_id_conv)
    then show ?thesis using that(1) by simp
  qed
  show ?thesis using short frac none all by auto
qed

theorem test_error_fraction_witness:
  "classify remdups (scenario_knn 3) [1 / 2] = Inr ''a'' \<and>
   classify remdups (scenario_knn 3) [9] = Inr ''a'' \<and>
   test_error remdups (scenario_knn 3) [[1 / 2], [9]] [''a'', ''b''] = Inr (1 / 2) \<and>
   test_error remdups (scenario_knn 3) [[1 / 2], [9]] [''a'', ''a'', ''b''] = Inr 0 \<and>
   test_error remdups (scenario_knn 3) [[1 / 2], [9]] [''b'', ''b''] = Inr 1 \<and>
   test_error remdups (scenario_knn 3) [[1 / 2], [9]] [''a''] = Inl IndexError"
proof -
  have c1: "classify remdups (scenario_knn 3) [1 / 2] = Inr ''a''"
    by (simp add: scenario_knn_def classify_def distance_def enumerate_eq_zip slice_def slice_index_def
          most_common_def upt_rec)
  have c2: "classify remdups (scenario_knn 3) [9] = Inr ''a''"
    by (simp add: scenario_knn_def classify_def distance_def enumerate_eq_zip slice_def slice_index_def
          most_common_def upt_rec)
  have h: "\<forall>r\<in>set [[1 / 2], [9 :: real]]. \<exists>l. classify remdups (scenario_knn 3) r = Inr l"
    using c1 c2 by simp
  from test_error_fraction [OF h, of "[''a'', ''b'']"]
       test_error_fraction [OF h, of "[''a'', ''a'', ''b'']"]
       test_error_fraction [OF h, of "[''b'', ''b'']"]
       test_error_fraction [OF h, of "[''a'']"]
  show ?thesis
    by (simp add: c1 c2)
qed

section \<open>The constructors\<close>

text \<open>
  C5. The constructor of the classifier accepts \<open>k = 0\<close> and \<open>k = 5\<close> for an array of
  two training points.
\<close>

theorem KNN_new_counterexample:
  "KNN_new (Ndarray (Array2 [[0], [1]])) [''a'', ''b''] 0
     = Inr \<lparr>knn_X = [[0], [1]], knn_y = [''a'', ''b''], knn_n = 2, knn_p = 1, knn_k = 0\<rparr> \<and>
   KNN_new (Ndarray (Array2 [[0], [1]])) [''a'', ''b''] 5
     = Inr \<lparr>knn_X = [[0], [1]], knn_y = [''a'', ''b''], knn_n = 2, knn_p = 1, knn_k = 5\<rparr>"
  by (simp add: KNN_new_def KNN_init_def reshape_def knn_blank_def ncols_def)

text \<open>
  C5, as the code has it. The constructor never looks at \<open>k\<close>: whether it succeeds, and
  with which exception it fails, is the same for every \<open>k\<close>, and two values of \<open>k\<close> give
  objects that differ in the stored \<open>k\<close> only. On a two-dimensional array of \<open>n \<ge> 1\<close>
  training points with \<open>n\<close> labels it succeeds for every integer \<open>k\<close>, storing it as
  given.
\<close>

theorem KNN_new_ignores_k:
  "KNN_new X y k = map_sum id (\<lambda>self. self\<lparr>knn_k := k\<rparr>) (KNN_new X y k') \<and>
   (m \<noteq> [] \<and> length y = length m \<longrightarrow>
      KNN_new (Ndarray (Array2 m)) y k
        = Inr \<lparr>knn_X = m, knn_y = y, knn_n = length m, knn_p = ncols m, knn_k = k\<rparr>)"
proof
  show "KNN_new X y k = map_sum id (\<lambda>self. self\<lparr>knn_k := k\<rparr>) (KNN_new X y k')"
    by (cases X rule: shape1.cases)
       (simp_all add: KNN_new_def KNN_init_def reshape_def knn_blank_def Let_def)
  show "m \<noteq> [] \<and> length y = length m \<longrightarrow>
      KNN_new (Ndarray (Array2 m)) y k
        = Inr \<lparr>knn_X = m, knn_y = y, knn_n = length m, knn_p = ncols m, knn_k = k\<rparr>"
    by (simp add: KNN_new_def KNN_init_def reshape_def knn_blank_def Let_def)
qed

theorem KNN_new_ignores_k_witness:
  "KNN_new (Ndarray (Array2 [[0], [1], [2]])) [''a'', ''b'', ''a''] (- 4)
     = Inr \<lparr>knn_X = [[0], [1], [2]], knn_y = [''a'', ''b'', ''a''], knn_n = 3, knn_p = 1,
            knn_k = - 4\<rparr> \<and>
   KNN_new (Ndarray (Array2 [[0], [1], [2]])) [''a'', ''b'', ''a''] (- 4)
     = map_sum id (\<lambda>self. self\<lparr>knn_k := - 4\<rparr>)
         (KNN_new (Ndarray (Array2 [[0], [1], [2]])) [''a'', ''b'', ''a''] 7)"
  using KNN_new_ignores_k [of "Ndarray (Array2 [[0], [1], [2]])" "[''a'', ''b'', ''a'']" "- 4" 7
          "[[0], [1], [2]]"]
  by (simp add: ncols_def KNN_new_def KNN_init_def reshape_def knn_blank_def)

text \<open>
  C6. The constructor of the classifier has assigned \<open>self.X\<close> when the labels turn out
  to be of another length.
\<close>

theorem init_counterexample:
  "KNN_init (Ndarray (Array2 [[0], [1]])) [''a''] 5
     = (Some (ValueError (Cannot_reshape 1 2)),
        \<lparr>kself_X = Some (Array2 [[0], [1]]), kself_y = None, kself_n = None, kself_p = None,
           kself_k = None\<rparr>)"
  by (simp add: KNN_init_def reshape_def knn_blank_def)

text \<open>
  C6, as the code has it. With a target or label vector of another length than the
  feature array, both constructors raise a \<open>ValueError\<close> that carries both lengths.
  \<open>LinearRegression\<close> raises it before any attribute is assigned; \<open>KNN\<close> raises it in
  the reshape of the labels, when \<open>self.X\<close> is assigned and no other attribute is,
  whether \<open>X\<close> is an array or a list.
\<close>

theorem init_length_mismatch:
  assumes "length X \<noteq> length y" "py_len F \<noteq> length l"
  shows "LinearRegression_init X y
           = (Some (ValueError (Dimensional_error (length X) (length y))), lr_blank) \<and>
         KNN_init F l k
           = (Some (ValueError (Cannot_reshape (length l) (py_len F))),
              knn_blank\<lparr>kself_X := Some (np_asarray F)\<rparr>)"
  using assms by (auto simp: LinearRegression_init_def KNN_init_def reshape_def)

theorem init_length_mismatch_witness:
  "LinearRegression_init [[1, 1], [1, 2]] [3]
     = (Some (ValueError (Dimensional_error 2 1)),
        \<lparr>self_X = None, self_y = None, self_n = None, self_p = None,
           self_coefficients = None\<rparr>) \<and>
   KNN_init (Ndarray (Array2 [[1, 1], [1, 2]])) [''a'', ''b'', ''c''] 1
     = (Some (ValueError (Cannot_reshape 3 2)),
        \<lparr>kself_X = Some (Array2 [[1, 1], [1, 2]]), kself_y = None, kself_n = None,
           kself_p = None, kself_k = None\<rparr>) \<and>
   KNN_init (PyList (Array2 [[1, 1], [1, 2]])) [''a'', ''b'', ''c''] 1
     = (Some (ValueError (Cannot_reshape 3 2)),
        \<lparr>kself_X = Some (Array2 [[1, 1], [1, 2]]), kself_y = None, kself_n = None,
           kself_p = None, kself_k = None\<rparr>)"
proof -
  have h1: "length [[1, 1], [1, 2 :: real]] \<noteq> length [3 :: real]" by simp
  have h2: "py_len (Ndarray (Array2 [[1, 1], [1, 2]])) \<noteq> length [''a'', ''b'', ''c'']" by simp
  have h3: "py_len (PyList (Array2 [[1, 1], [1, 2]])) \<noteq> length [''a'', ''b'', ''c'']" by simp
  from init_length_mismatch [OF h1 h2, of 1] init_length_mismatch [OF h1 h3, of 1]
  show ?thesis
    by (simp add: lr_blank_def knn_blank_def)
qed

end
